theory Spec2Isabelle
  imports Complex_Main "HOL-Library.Multiset"
begin

section \<open>The data frame\<close>

text \<open>
  The script \<^verbatim>\<open>ibm.py\<close> works on one pandas data frame \<^verbatim>\<open>df\<close>, which it mutates in
  place. A cell read from the CSV file is a number, a string, or the missing value NaN.
  Numbers are kept as exact rationals: pandas compares an integer and a float of the same
  value as equal, both when it counts distinct values and when it looks a value up in a
  dictionary, so \<open>Num 3\<close> stands for the integer 3 as well as for the float 3.0.
\<close>

datatype cell = Num rat | Str string | NaN

type_synonym series = "cell list"

text \<open>
  A frame has a row index, here its length \<open>nrows\<close> (what \<^verbatim>\<open>len(df)\<close> returns), and its
  columns in order, each a label with a series.
\<close>

record dataframe =
  nrows :: nat
  cols :: "(string \<times> series) list"

text \<open>
  Frames built by \<^verbatim>\<open>pd.read_csv\<close> have pairwise distinct labels and columns as long as the
  index.
\<close>

definition wf_frame :: "dataframe \<Rightarrow> bool" where
  "wf_frame df \<longleftrightarrow>
     distinct (map fst (cols df)) \<and> (\<forall>p \<in> set (cols df). length (snd p) = nrows df)"

text \<open>The exceptions the script can meet.\<close>

datatype exn =
    FileNotFoundError
  | PermissionError
  | EmptyDataError
  | ParserError
  | UnicodeDecodeError
  | KeyError string

text \<open>\<^verbatim>\<open>df.columns\<close>, \<^verbatim>\<open>df[col]\<close> and \<^verbatim>\<open>df[col] = s\<close> for a series \<open>s\<close> on the frame's index.\<close>

definition columns :: "dataframe \<Rightarrow> string list" where
  "columns df = map fst (cols df)"

definition getitem :: "dataframe \<Rightarrow> string \<Rightarrow> exn + series" where
  "getitem df c = (case map_of (cols df) c of None \<Rightarrow> Inl (KeyError c) | Some s \<Rightarrow> Inr s)"

fun assign :: "string \<Rightarrow> series \<Rightarrow> (string \<times> series) list \<Rightarrow> (string \<times> series) list" where
  "assign c s [] = [(c, s)]"
| "assign c s (p # ps) = (if fst p = c then (c, s) # ps else p # assign c s ps)"

definition setitem :: "dataframe \<Rightarrow> string \<Rightarrow> series \<Rightarrow> dataframe" where
  "setitem df c s = df\<lparr>cols := assign c s (cols df)\<rparr>"

text \<open>
  \<^verbatim>\<open>Series.nunique()\<close> counts the distinct values of a series and leaves NaN out
  (\<^verbatim>\<open>dropna=True\<close> is the default).
\<close>

definition notnull :: "cell \<Rightarrow> bool" where
  "notnull v \<longleftrightarrow> v \<noteq> NaN"

definition nunique :: "series \<Rightarrow> nat" where
  "nunique s = length (remdups (filter notnull s))"

text \<open>\<^verbatim>\<open>df.drop(columns=[col], inplace=True)\<close> raises KeyError for a label that is not there.\<close>

definition drop_column :: "string \<Rightarrow> dataframe \<Rightarrow> exn + dataframe" where
  "drop_column c df =
     (if c \<in> set (columns df) then Inr (df\<lparr>cols := filter (\<lambda>p. fst p \<noteq> c) (cols df)\<rparr>)
      else Inl (KeyError c))"

section \<open>Pruning the constant columns (lines 60 to 65)\<close>

definition columns_to_drop :: "string list" where
  "columns_to_drop = [''EmployeeCount'', ''StandardHours'', ''Over18'']"

text \<open>
  The body of the loop: \<^verbatim>\<open>if col in df.columns and df[col].nunique() == 1: df.drop(...)\<close>.
  The \<^verbatim>\<open>and\<close> reads the column only when the label is there.
\<close>

definition prune_step :: "string \<Rightarrow> dataframe \<Rightarrow> exn + dataframe" where
  "prune_step col df =
     (if col \<in> set (columns df) then
        (case getitem df col of
           Inl e \<Rightarrow> Inl e
         | Inr s \<Rightarrow> if nunique s = 1 then drop_column col df else Inr df)
      else Inr df)"

fun prune_loop :: "string list \<Rightarrow> dataframe \<Rightarrow> exn + dataframe" where
  "prune_loop [] df = Inr df"
| "prune_loop (col # rest) df =
     (case prune_step col df of Inl e \<Rightarrow> Inl e | Inr df' \<Rightarrow> prune_loop rest df')"

definition prune_constant_columns :: "dataframe \<Rightarrow> exn + dataframe" where
  "prune_constant_columns df = prune_loop columns_to_drop df"

section \<open>Recoding the ordinal columns (lines 69 to 83)\<close>

type_synonym code_map = "int \<Rightarrow> string option"

definition education_map :: code_map where
  "education_map = map_of
     [(1, ''Below College''), (2, ''College''), (3, ''Bachelor''), (4, ''Master''), (5, ''Doctor'')]"

definition environment_satisfaction_map :: code_map where
  "environment_satisfaction_map = map_of
     [(1, ''Low''), (2, ''Medium''), (3, ''High''), (4, ''Very High'')]"

definition job_involvement_map :: code_map where
  "job_involvement_map = map_of
     [(1, ''Low''), (2, ''Medium''), (3, ''High''), (4, ''Very High'')]"

definition job_satisfaction_map :: code_map where
  "job_satisfaction_map = map_of
     [(1, ''Low''), (2, ''Medium''), (3, ''High''), (4, ''Very High'')]"

definition performance_rating_map :: code_map where
  "performance_rating_map = map_of
     [(1, ''Low''), (2, ''Good''), (3, ''Excellent''), (4, ''Outstanding'')]"

definition relationship_satisfaction_map :: code_map where
  "relationship_satisfaction_map = map_of
     [(1, ''Low''), (2, ''Medium''), (3, ''High''), (4, ''Very High'')]"

definition work_life_balance_map :: code_map where
  "work_life_balance_map = map_of
     [(1, ''Bad''), (2, ''Good''), (3, ''Better''), (4, ''Best'')]"

text \<open>
  \<^verbatim>\<open>Series.map(d)\<close> with a dictionary \<open>d\<close> looks every value up in \<open>d\<close>; a value that is
  not a key of \<open>d\<close> becomes NaN. The keys here are integers, so a number is found when it
  is integral and its value is a key; a string and NaN are never found.
\<close>

definition lookup :: "code_map \<Rightarrow> cell \<Rightarrow> string option" where
  "lookup m v =
     (case v of
        Num q \<Rightarrow> if of_int \<lfloor>q\<rfloor> = q then m \<lfloor>q\<rfloor> else None
      | Str _ \<Rightarrow> None
      | NaN \<Rightarrow> None)"

definition map_value :: "code_map \<Rightarrow> cell \<Rightarrow> cell" where
  "map_value m v = (case lookup m v of Some l \<Rightarrow> Str l | None \<Rightarrow> NaN)"

definition map_series :: "code_map \<Rightarrow> series \<Rightarrow> series" where
  "map_series m s = map (map_value m) s"

text \<open>One statement \<^verbatim>\<open>df[c] = df[c].map(m)\<close>: reading a missing column raises KeyError.\<close>

definition recode_column :: "string \<times> code_map \<Rightarrow> dataframe \<Rightarrow> exn + dataframe" where
  "recode_column cm df =
     (case getitem df (fst cm) of
        Inl e \<Rightarrow> Inl e
      | Inr s \<Rightarrow> Inr (setitem df (fst cm) (map_series (snd cm) s)))"

text \<open>The seven statements of lines 77 to 83, in the order of the source.\<close>

definition recode_steps :: "(string \<times> code_map) list" where
  "recode_steps =
     [(''Education'', education_map),
      (''EnvironmentSatisfaction'', environment_satisfaction_map),
      (''JobInvolvement'', job_involvement_map),
      (''JobSatisfaction'', job_satisfaction_map),
      (''PerformanceRating'', performance_rating_map),
      (''RelationshipSatisfaction'', relationship_satisfaction_map),
      (''WorkLifeBalance'', work_life_balance_map)]"

fun recode_loop :: "(string \<times> code_map) list \<Rightarrow> dataframe \<Rightarrow> exn + dataframe" where
  "recode_loop [] df = Inr df"
| "recode_loop (cm # rest) df =
     (case recode_column cm df of Inl e \<Rightarrow> Inl e | Inr df' \<Rightarrow> recode_loop rest df')"

definition recode_ordinals :: "dataframe \<Rightarrow> exn + dataframe" where
  "recode_ordinals df = recode_loop recode_steps df"

section \<open>The attrition rate (lines 92 to 94)\<close>

text \<open>
  \<^verbatim>\<open>Series.value_counts()\<close> is a series of counts indexed by the distinct values, NaN
  left out; \<^verbatim>\<open>counts['Yes']\<close> raises KeyError when \<^verbatim>\<open>'Yes'\<close> is not in that index.
\<close>

definition value_counts :: "series \<Rightarrow> cell \<Rightarrow> nat option" where
  "value_counts s v = (if notnull v \<and> v \<in> set s then Some (count_list s v) else None)"

definition counts_getitem :: "(cell \<Rightarrow> nat option) \<Rightarrow> string \<Rightarrow> exn + nat" where
  "counts_getitem counts l = (case counts (Str l) of None \<Rightarrow> Inl (KeyError l) | Some n \<Rightarrow> Inr n)"

text \<open>
  \<^verbatim>\<open>(attrition_counts['Yes'] / len(df)) * 100\<close>. The source computes in binary floating
  point; the model keeps the exact quotient. A count is only there for a value that occurs,
  so on a well-formed frame the divisor is positive when the division is reached
  (\<open>attrition_rate_divisor_positive\<close> below).
\<close>

definition attrition_rate :: "dataframe \<Rightarrow> exn + rat" where
  "attrition_rate df =
     (case getitem df ''Attrition'' of
        Inl e \<Rightarrow> Inl e
      | Inr s \<Rightarrow>
          (case counts_getitem (value_counts s) ''Yes'' of
             Inl e \<Rightarrow> Inl e
           | Inr n \<Rightarrow> Inr (of_nat n / of_nat (nrows df) * 100)))"

text \<open>
  The format \<^verbatim>\<open>{attrition_rate:.2f}\<close>: the value rounded to hundredths, ties to the even
  neighbour, written with its sign, its integer part and two decimals.
\<close>

definition round_half_even :: "rat \<Rightarrow> int" where
  "round_half_even q =
     (let f = \<lfloor>q\<rfloor>; d = q - of_int f
      in if d < 1 / 2 then f else if 1 / 2 < d then f + 1 else if even f then f else f + 1)"

text \<open>\<open>digit\<close> is only applied to numbers below ten.\<close>

definition digit :: "nat \<Rightarrow> char" where
  "digit d = ''0123456789'' ! d"

function show_nat :: "nat \<Rightarrow> string" where
  "show_nat n = (if n < 10 then [digit n] else show_nat (n div 10) @ [digit (n mod 10)])"
  by pat_completeness auto
termination
  by (relation "measure (\<lambda>n. n)") auto

declare show_nat.simps [simp del]

definition format_2f :: "rat \<Rightarrow> string" where
  "format_2f q =
     (let h = nat (round_half_even (\<bar>q\<bar> * 100))
      in (if q < 0 then ''-'' else '''') @ show_nat (h div 100) @ ''.''
           @ [digit (h mod 100 div 10), digit (h mod 10)])"

section \<open>The script\<close>

text \<open>
  Cleaning and the rate, on a loaded frame: the prune loop, the seven recodings, the
  attrition rate. The first exception ends it.
\<close>

definition prepare :: "dataframe \<Rightarrow> exn + dataframe" where
  "prepare df =
     (case prune_constant_columns df of Inl e \<Rightarrow> Inl e | Inr df' \<Rightarrow> recode_ordinals df')"

definition analyse :: "dataframe \<Rightarrow> exn + dataframe \<times> rat" where
  "analyse df =
     (case prepare df of
        Inl e \<Rightarrow> Inl e
      | Inr df' \<Rightarrow> (case attrition_rate df' of Inl e \<Rightarrow> Inl e | Inr r \<Rightarrow> Inr (df', r)))"

text \<open>
  How a run of the script ends, up to the printed rate of line 94: by \<^verbatim>\<open>exit()\<close> in the
  handler of line 33 after its two messages, by an exception nobody catches, or with the
  cleaned frame and the line that reports the rate.
\<close>

datatype outcome =
    Exited "string list"
  | Uncaught exn
  | Reported dataframe string

definition not_found_messages :: "string list" where
  "not_found_messages =
     [''Error: The CSV file 'WA_Fn-UseC_-HR-Employee-Attrition .csv' was not found.'',
      ''Please make sure the file is in the same directory as the script.'']"

definition rate_message :: "rat \<Rightarrow> string" where
  "rate_message r = CHR 0x0A # ''Overall Attrition Rate: '' @ format_2f r @ ''%''"

text \<open>
  The file system and the parser are outside the script: what \<^verbatim>\<open>pd.read_csv\<close> does at
  the fixed path, a frame or an exception, is the input of a run. The handler of line 33
  catches FileNotFoundError and nothing else.
\<close>

inductive script_run :: "exn + dataframe \<Rightarrow> outcome \<Rightarrow> bool" where
  not_found: "script_run (Inl FileNotFoundError) (Exited not_found_messages)"
| load_fails: "e \<noteq> FileNotFoundError \<Longrightarrow> script_run (Inl e) (Uncaught e)"
| analysis_fails: "analyse df = Inl e \<Longrightarrow> script_run (Inr df) (Uncaught e)"
| reports: "analyse df = Inr (df', r) \<Longrightarrow> script_run (Inr df) (Reported df' (rate_message r))"

section \<open>Notions used to state the properties\<close>

text \<open>
  A column is constant in a frame when it is there and \<^verbatim>\<open>nunique()\<close> is 1 on it;
  \<open>without P df\<close> is \<open>df\<close> with the columns whose label satisfies \<open>P\<close> taken out.
\<close>

definition is_constant :: "dataframe \<Rightarrow> string \<Rightarrow> bool" where
  "is_constant df c \<longleftrightarrow> (case getitem df c of Inl e \<Rightarrow> False | Inr s \<Rightarrow> nunique s = 1)"

definition without :: "(string \<Rightarrow> bool) \<Rightarrow> dataframe \<Rightarrow> dataframe" where
  "without P df = df\<lparr>cols := filter (\<lambda>p. \<not> P (fst p)) (cols df)\<rparr>"

text \<open>
  \<open>recode_pure (c, m) df\<close> is \<open>df\<close> with the table \<open>m\<close> applied to the cells of its
  column \<open>c\<close>, when there is one: what the statement \<^verbatim>\<open>df[c] = df[c].map(m)\<close> leaves
  when it does not raise.
\<close>

fun update_first ::
  "string \<Rightarrow> (series \<Rightarrow> series) \<Rightarrow> (string \<times> series) list \<Rightarrow> (string \<times> series) list" where
  "update_first c f [] = []"
| "update_first c f (p # ps) =
     (if fst p = c then (c, f (snd p)) # ps else p # update_first c f ps)"

definition recode_pure :: "string \<times> code_map \<Rightarrow> dataframe \<Rightarrow> dataframe" where
  "recode_pure cm df = df\<lparr>cols := update_first (fst cm) (map_series (snd cm)) (cols df)\<rparr>"

section \<open>Frames on which the theorems are run\<close>

text \<open>
  Two records with a two-valued and a constant candidate column; two records without
  EmployeeCount and StandardHours; two records of which nobody left.
\<close>

definition frame_two_valued :: dataframe where
  "frame_two_valued =
     \<lparr>nrows = 2,
      cols = [(''EmployeeCount'', [Num 1, Num 2]),
              (''StandardHours'', [Num 80, Num 80]),
              (''Attrition'', [Str ''Yes'', Str ''No''])]\<rparr>"

definition frame_no_candidates :: dataframe where
  "frame_no_candidates =
     \<lparr>nrows = 2,
      cols = [(''Age'', [Num 41, Num 49]),
              (''Over18'', [Str ''Y'', Str ''Y'']),
              (''Attrition'', [Str ''Yes'', Str ''No''])]\<rparr>"

definition frame_nobody_left :: dataframe where
  "frame_nobody_left =
     \<lparr>nrows = 2,
      cols = [(''Age'', [Num 41, Num 49]),
              (''Attrition'', [Str ''No'', Str ''No''])]\<rparr>"

text \<open>
  The three records of the worked example: with the three named columns only, and with
  the seven ordinal columns, before the recoding, after it, and after the whole cleaning.
\<close>

definition frame_literal :: dataframe where
  "frame_literal =
     \<lparr>nrows = 3,
      cols = [(''EmployeeCount'', [Num 1, Num 1, Num 1]),
              (''Attrition'', [Str ''Yes'', Str ''No'', Str ''Yes'']),
              (''Education'', [Num 3, Num 4, Num 1])]\<rparr>"

definition frame_hr :: dataframe where
  "frame_hr =
     \<lparr>nrows = 3,
      cols = [(''Attrition'', [Str ''Yes'', Str ''No'', Str ''Yes'']),
              (''Education'', [Num 3, Num 4, Num 1]),
              (''EmployeeCount'', [Num 1, Num 1, Num 1]),
              (''EnvironmentSatisfaction'', [Num 2, Num 3, Num 4]),
              (''JobInvolvement'', [Num 3, Num 2, Num 2]),
              (''JobSatisfaction'', [Num 4, Num 2, Num 3]),
              (''PerformanceRating'', [Num 3, Num 4, Num 3]),
              (''RelationshipSatisfaction'', [Num 1, Num 4, Num 2]),
              (''WorkLifeBalance'', [Num 1, Num 3, Num 3])]\<rparr>"

definition frame_hr_recoded :: dataframe where
  "frame_hr_recoded =
     \<lparr>nrows = 3,
      cols = [(''Attrition'', [Str ''Yes'', Str ''No'', Str ''Yes'']),
              (''Education'', [Str ''Bachelor'', Str ''Master'', Str ''Below College'']),
              (''EmployeeCount'', [Num 1, Num 1, Num 1]),
              (''EnvironmentSatisfaction'', [Str ''Medium'', Str ''High'', Str ''Very High'']),
              (''JobInvolvement'', [Str ''High'', Str ''Medium'', Str ''Medium'']),
              (''JobSatisfaction'', [Str ''Very High'', Str ''Medium'', Str ''High'']),
              (''PerformanceRating'', [Str ''Excellent'', Str ''Outstanding'', Str ''Excellent'']),
              (''RelationshipSatisfaction'', [Str ''Low'', Str ''Very High'', Str ''Medium'']),
              (''WorkLifeBalance'', [Str ''Bad'', Str ''Better'', Str ''Better''])]\<rparr>"


text \<open>The same schema with values that are no codes of their tables.\<close>

definition frame_stray :: dataframe where
  "frame_stray =
     \<lparr>nrows = 3,
      cols = [(''Attrition'', [Str ''Yes'', Str ''No'', Str ''Yes'']),
              (''Education'', [Num 3, Num 7, NaN]),
              (''EnvironmentSatisfaction'', [Num 2, Num 3, Num 4]),
              (''JobInvolvement'', [Num 3, Num 2, Num 2]),
              (''JobSatisfaction'', [Num 4, Num 2, Num 3]),
              (''PerformanceRating'', [Num 3, Num 4, Num 3]),
              (''RelationshipSatisfaction'', [Num 1, Num 4, Num 2]),
              (''WorkLifeBalance'', [Num 1, Str ''Good'', Num 3])]\<rparr>"

section \<open>Pruning: what the loop computes\<close>

lemma in_columns_iff: "c \<in> set (columns df) \<longleftrightarrow> (\<exists>s. getitem df c = Inr s)"
proof -
  have "c \<in> fst ` set (cols df) \<longleftrightarrow> map_of (cols df) c \<noteq> None"
    by (simp add: map_of_eq_None_iff)
  then show ?thesis
    by (auto simp: columns_def getitem_def split: option.splits)
qed


lemma columns_to_drop_set:
  "set columns_to_drop = {''EmployeeCount'', ''StandardHours'', ''Over18''}"
  by (auto simp: columns_to_drop_def)

lemma map_of_filter_fst:
  "map_of (filter (\<lambda>p. \<not> P (fst p)) xs) k = (if P k then None else map_of xs k)"
  by (induction xs) auto

lemma getitem_without:
  "getitem (without P df) k = (if P k then Inl (KeyError k) else getitem df k)"
  by (simp add: getitem_def without_def map_of_filter_fst)

lemma columns_without: "columns (without P df) = filter (\<lambda>c. \<not> P c) (columns df)"
  by (simp add: columns_def without_def filter_map comp_def)

lemma nrows_without: "nrows (without P df) = nrows df"
  by (simp add: without_def)

lemma is_constant_without:
  "is_constant (without P df) k \<longleftrightarrow> \<not> P k \<and> is_constant df k"
  by (simp add: is_constant_def getitem_without)

lemma without_without: "without Q (without P df) = without (\<lambda>c. P c \<or> Q c) df"
  by (simp add: without_def conj_commute)

lemma without_cong:
  "(\<And>c. c \<in> set (columns df) \<Longrightarrow> P c = Q c) \<Longrightarrow> without P df = without Q df"
  unfolding without_def columns_def
  by (rule arg_cong [where f = "\<lambda>x. df\<lparr>cols := x\<rparr>"], rule filter_cong) auto

lemma without_none: "(\<And>c. c \<in> set (columns df) \<Longrightarrow> \<not> P c) \<Longrightarrow> without P df = df"
  unfolding without_def columns_def by (simp add: filter_id_conv)

text \<open>One pass of the loop body drops the column exactly when it is constant.\<close>

lemma prune_step_eq:
  "prune_step c df = Inr (without (\<lambda>k. k = c \<and> is_constant df c) df)"
proof (cases "is_constant df c")
  case True
  then obtain s where s: "getitem df c = Inr s" "nunique s = 1"
    by (auto simp: is_constant_def split: sum.splits)
  then have "c \<in> set (columns df)" by (auto simp: in_columns_iff)
  with s True show ?thesis
    by (simp add: prune_step_def drop_column_def without_def)
next
  case False
  then have "prune_step c df = Inr df"
    by (auto simp: prune_step_def is_constant_def in_columns_iff split: sum.splits)
  with False show ?thesis by (simp add: without_none)
qed

text \<open>
  The loop never raises, and it takes out the candidates that are constant in the frame
  it started from: dropping one column changes neither the presence nor the values of
  another.
\<close>

lemma prune_loop_eq:
  "prune_loop cs df = Inr (without (\<lambda>k. k \<in> set cs \<and> is_constant df k) df)"
proof (induction cs arbitrary: df)
  case Nil
  show ?case by (simp add: without_none)
next
  case (Cons c cs)
  let ?d = "without (\<lambda>k. k = c \<and> is_constant df c) df"
  have "prune_loop (c # cs) df = prune_loop cs ?d"
    by (simp add: prune_step_eq)
  also have "\<dots> = Inr (without (\<lambda>k. k \<in> set cs \<and> is_constant ?d k) ?d)"
    by (rule Cons.IH)
  also have "without (\<lambda>k. k \<in> set cs \<and> is_constant ?d k) ?d
      = without (\<lambda>k. k \<in> set (c # cs) \<and> is_constant df k) df"
    unfolding without_without
    by (rule without_cong) (auto simp: is_constant_without)
  finally show ?case .
qed

lemma prune_eq:
  "prune_constant_columns df
     = Inr (without (\<lambda>k. k \<in> set columns_to_drop \<and> is_constant df k) df)"
  by (simp add: prune_constant_columns_def prune_loop_eq)

text \<open>
  C4. Pruning is idempotent: on every frame the prune loop returns a frame, and pruning
  that frame again returns it unchanged.
\<close>

theorem prune_idempotent:
  "\<exists>df'. prune_constant_columns df = Inr df' \<and> prune_constant_columns df' = Inr df'"
proof -
  let ?P = "\<lambda>k. k \<in> set columns_to_drop \<and> is_constant df k"
  let ?d = "without ?P df"
  have 1: "prune_constant_columns df = Inr ?d" by (rule prune_eq)
  have "prune_constant_columns ?d
      = Inr (without (\<lambda>k. k \<in> set columns_to_drop \<and> is_constant ?d k) ?d)"
    by (rule prune_eq)
  also have "without (\<lambda>k. k \<in> set columns_to_drop \<and> is_constant ?d k) ?d = ?d"
    by (rule without_none) (auto simp: is_constant_without)
  finally show ?thesis using 1 by blast
qed





text \<open>
  C9. A candidate column that the frame lacks is skipped: the loop body returns the frame
  as it is, and the whole prune loop returns a frame, in which that candidate is still
  absent, the row count is the same, and every column outside the candidate set is
  there with the same values and in the same order.
\<close>

theorem prune_skips_absent:
  assumes "c \<in> {''EmployeeCount'', ''StandardHours'', ''Over18''}"
    and "c \<notin> set (columns df)"
  shows "prune_step c df = Inr df \<and>
    (\<exists>df'. prune_constant_columns df = Inr df' \<and>
       c \<notin> set (columns df') \<and>
       nrows df' = nrows df \<and>
       (\<forall>k. k \<notin> {''EmployeeCount'', ''StandardHours'', ''Over18''}
          \<longrightarrow> getitem df' k = getitem df k) \<and>
       filter (\<lambda>k. k \<notin> {''EmployeeCount'', ''StandardHours'', ''Over18''}) (columns df')
         = filter (\<lambda>k. k \<notin> {''EmployeeCount'', ''StandardHours'', ''Over18''}) (columns df))"
proof -
  let ?P = "\<lambda>k. k \<in> set columns_to_drop \<and> is_constant df k"
  have "prune_step c df = Inr df"
    using assms(2) by (simp add: prune_step_def)
  moreover have "prune_constant_columns df = Inr (without ?P df)" by (rule prune_eq)
  moreover have "c \<notin> set (columns (without ?P df))"
    using assms(2) by (simp add: columns_without)
  moreover have "nrows (without ?P df) = nrows df" by (rule nrows_without)
  moreover have "getitem (without ?P df) k = getitem df k"
    if "k \<notin> {''EmployeeCount'', ''StandardHours'', ''Over18''}" for k
    using that by (simp add: getitem_without columns_to_drop_set)
  moreover have "filter (\<lambda>k. k \<notin> {''EmployeeCount'', ''StandardHours'', ''Over18''})
        (columns (without ?P df))
      = filter (\<lambda>k. k \<notin> {''EmployeeCount'', ''StandardHours'', ''Over18''}) (columns df)"
    unfolding columns_without filter_filter
    by (rule filter_cong) (auto simp: columns_to_drop_set)
  ultimately show ?thesis by blast
qed

theorem prune_skips_absent_witness:
  "''EmployeeCount'' \<in> {''EmployeeCount'', ''StandardHours'', ''Over18''} \<and>
   ''EmployeeCount'' \<notin> set (columns frame_no_candidates) \<and>
   prune_step ''EmployeeCount'' frame_no_candidates = Inr frame_no_candidates \<and>
   (\<exists>df'. prune_constant_columns frame_no_candidates = Inr df' \<and>
      ''EmployeeCount'' \<notin> set (columns df') \<and>
      nrows df' = 2 \<and>
      getitem df' ''Age'' = Inr [Num 41, Num 49] \<and>
      getitem df' ''Attrition'' = Inr [Str ''Yes'', Str ''No''])"
proof -
  have c: "columns frame_no_candidates = [''Age'', ''Over18'', ''Attrition'']"
    by (simp add: frame_no_candidates_def columns_def)
  have h1: "''EmployeeCount'' \<in> {''EmployeeCount'', ''StandardHours'', ''Over18''}" by simp
  have h2: "''EmployeeCount'' \<notin> set (columns frame_no_candidates)" by (simp add: c)
  have g: "getitem frame_no_candidates ''Age'' = Inr [Num 41, Num 49]"
    "getitem frame_no_candidates ''Attrition'' = Inr [Str ''Yes'', Str ''No'']"
    "nrows frame_no_candidates = 2"
    by (simp_all add: frame_no_candidates_def getitem_def)
  from prune_skips_absent [OF h1 h2] obtain df' where
    s: "prune_step ''EmployeeCount'' frame_no_candidates = Inr frame_no_candidates"
    and p: "prune_constant_columns frame_no_candidates = Inr df'"
    and a: "''EmployeeCount'' \<notin> set (columns df')" "nrows df' = nrows frame_no_candidates"
    and k: "\<forall>k. k \<notin> {''EmployeeCount'', ''StandardHours'', ''Over18''}
          \<longrightarrow> getitem df' k = getitem frame_no_candidates k"
    by blast
  from k have "getitem df' ''Age'' = getitem frame_no_candidates ''Age''"
    and "getitem df' ''Attrition'' = getitem frame_no_candidates ''Attrition''"
    by simp_all
  with h1 h2 s p a g show ?thesis by simp
qed

section \<open>Recoding: what the seven statements compute\<close>

lemma assign_update_first:
  "map_of xs c = Some s \<Longrightarrow> assign c (f s) xs = update_first c f xs"
  by (induction xs) (auto split: if_splits)

lemma map_fst_update_first: "map fst (update_first c f xs) = map fst xs"
  by (induction xs) auto

lemma map_of_update_first:
  "map_of (update_first c f xs) k = (if k = c then map_option f (map_of xs c) else map_of xs k)"
  by (induction xs) auto


lemma recode_column_eq:
  "recode_column cm df =
     (if fst cm \<in> set (columns df) then Inr (recode_pure cm df) else Inl (KeyError (fst cm)))"
proof (cases "map_of (cols df) (fst cm)")
  case None
  then have "fst cm \<notin> set (columns df)"
    by (simp add: columns_def map_of_eq_None_iff)
  with None show ?thesis by (simp add: recode_column_def getitem_def)
next
  case (Some s)
  then have "fst cm \<in> set (columns df)"
    by (simp add: in_columns_iff getitem_def)
  with Some show ?thesis
    by (simp add: recode_column_def getitem_def setitem_def recode_pure_def assign_update_first)
qed

lemma columns_recode_pure: "columns (recode_pure cm df) = columns df"
  by (simp add: recode_pure_def columns_def map_fst_update_first)


lemma getitem_recode_pure:
  "getitem (recode_pure cm df) k =
     (if k = fst cm then
        (case getitem df k of Inl e \<Rightarrow> Inl e | Inr s \<Rightarrow> Inr (map_series (snd cm) s))
      else getitem df k)"
  by (simp add: recode_pure_def getitem_def map_of_update_first split: option.splits)


lemma columns_fold_recode_pure: "columns (fold recode_pure steps df) = columns df"
  by (induction steps arbitrary: df) (simp_all add: columns_recode_pure)


text \<open>The seven statements succeed exactly when the seven columns are there.\<close>

lemma recode_loop_present:
  "set (map fst steps) \<subseteq> set (columns df) \<Longrightarrow>
   recode_loop steps df = Inr (fold recode_pure steps df)"
  by (induction steps arbitrary: df) (simp_all add: recode_column_eq columns_recode_pure)

lemma recode_loop_Inr_present:
  "recode_loop steps df = Inr df' \<Longrightarrow> set (map fst steps) \<subseteq> set (columns df)"
proof (induction steps arbitrary: df)
  case Nil
  show ?case by simp
next
  case (Cons cm steps)
  from Cons.prems have p: "fst cm \<in> set (columns df)"
    by (auto simp: recode_column_eq split: if_splits)
  with Cons.prems have "recode_loop steps (recode_pure cm df) = Inr df'"
    by (simp add: recode_column_eq)
  then have "set (map fst steps) \<subseteq> set (columns (recode_pure cm df))"
    by (rule Cons.IH)
  with p show ?case by (simp add: columns_recode_pure)
qed

lemma getitem_fold_recode_pure:
  "distinct (map fst steps) \<Longrightarrow>
   getitem (fold recode_pure steps df) k =
     (case map_of steps k of
        None \<Rightarrow> getitem df k
      | Some m \<Rightarrow> (case getitem df k of Inl e \<Rightarrow> Inl e | Inr s \<Rightarrow> Inr (map_series m s)))"
proof (induction steps arbitrary: df)
  case Nil
  show ?case by simp
next
  case (Cons cm steps)
  from Cons.prems have d: "distinct (map fst steps)" and n: "fst cm \<notin> fst ` set steps"
    by simp_all
  from n have none: "map_of steps (fst cm) = None"
    by (simp add: map_of_eq_None_iff)
  have step: "getitem (fold recode_pure (cm # steps) df) k =
     (case map_of steps k of
        None \<Rightarrow> getitem (recode_pure cm df) k
      | Some m \<Rightarrow> (case getitem (recode_pure cm df) k of
                    Inl e \<Rightarrow> Inl e | Inr s \<Rightarrow> Inr (map_series m s)))"
    by (simp add: Cons.IH [OF d])
  show ?case
  proof (cases "k = fst cm")
    case True
    with step none show ?thesis
      by (cases cm) (simp add: getitem_recode_pure split: sum.splits)
  next
    case False
    then have "getitem (recode_pure cm df) k = getitem df k"
      by (simp add: getitem_recode_pure)
    with step False show ?thesis
      by (cases cm) (simp cong: option.case_cong sum.case_cong)
  qed
qed

lemma distinct_recode_steps: "distinct (map fst recode_steps)"
  by (simp add: recode_steps_def)



lemma map_value_code: "m k = Some l \<Longrightarrow> map_value m (Num (of_int k)) = Str l"
  by (simp add: map_value_def lookup_def)


lemma map_value_Str: "map_value m (Str l) = NaN"
  by (simp add: map_value_def lookup_def)

lemma map_value_NaN: "map_value m NaN = NaN"
  by (simp add: map_value_def lookup_def)

lemma map_of_recode_steps:
  "cm \<in> set recode_steps \<Longrightarrow> map_of recode_steps (fst cm) = Some (snd cm)"
  using distinct_recode_steps by (cases cm) simp

lemma recode_ordinals_iff:
  "recode_ordinals df = Inr df' \<longleftrightarrow>
     set (map fst recode_steps) \<subseteq> set (columns df) \<and> df' = fold recode_pure recode_steps df"
  unfolding recode_ordinals_def
  using recode_loop_present [of recode_steps df] recode_loop_Inr_present [of recode_steps df df']
  by auto

lemma getitem_recoded:
  assumes "cm \<in> set recode_steps"
  shows "getitem (fold recode_pure recode_steps df) (fst cm) =
     (case getitem df (fst cm) of Inl e \<Rightarrow> Inl e | Inr s \<Rightarrow> Inr (map_series (snd cm) s))"
  by (simp add: getitem_fold_recode_pure [OF distinct_recode_steps] map_of_recode_steps [OF assms])


lemmas recode_eval =
  recode_ordinals_def recode_steps_def recode_column_def getitem_def setitem_def
  map_series_def map_value_def lookup_def
  education_map_def environment_satisfaction_map_def job_involvement_map_def
  job_satisfaction_map_def performance_rating_map_def relationship_satisfaction_map_def
  work_life_balance_map_def

lemma recode_frame_hr: "recode_ordinals frame_hr = Inr frame_hr_recoded"
  by (simp add: frame_hr_def frame_hr_recoded_def recode_eval)





text \<open>
  C10. Recoding is not idempotent. On a frame whose seven ordinal columns hold only integer
  codes of their tables, the first recoding succeeds and puts a label in every cell of
  those columns; a second recoding succeeds too and leaves NaN in every cell of those
  columns, so that it changes each of them that has a record at all.
\<close>

theorem recode_twice_all_null:
  assumes "\<forall>cm \<in> set recode_steps. \<exists>s. getitem df (fst cm) = Inr s \<and>
             (\<forall>v \<in> set s. \<exists>k l. v = Num (of_int k) \<and> snd cm k = Some l)"
  shows "\<exists>df1 df2. recode_ordinals df = Inr df1 \<and> recode_ordinals df1 = Inr df2 \<and>
     (\<forall>cm \<in> set recode_steps. \<exists>s s1.
        getitem df (fst cm) = Inr s \<and>
        getitem df1 (fst cm) = Inr s1 \<and> length s1 = length s \<and>
        (\<forall>v \<in> set s1. \<exists>l. v = Str l) \<and>
        getitem df2 (fst cm) = Inr (replicate (length s) NaN) \<and>
        (s \<noteq> [] \<longrightarrow> getitem df2 (fst cm) \<noteq> getitem df1 (fst cm)))"
proof -
  let ?d1 = "fold recode_pure recode_steps df"
  let ?d2 = "fold recode_pure recode_steps ?d1"
  from assms have pres: "set (map fst recode_steps) \<subseteq> set (columns df)"
    by (auto simp: in_columns_iff)
  then have r1: "recode_ordinals df = Inr ?d1" by (simp add: recode_ordinals_iff)
  from pres have r2: "recode_ordinals ?d1 = Inr ?d2"
    by (simp add: recode_ordinals_iff columns_fold_recode_pure)
  have "\<exists>s s1. getitem df (fst cm) = Inr s \<and>
        getitem ?d1 (fst cm) = Inr s1 \<and> length s1 = length s \<and>
        (\<forall>v \<in> set s1. \<exists>l. v = Str l) \<and>
        getitem ?d2 (fst cm) = Inr (replicate (length s) NaN) \<and>
        (s \<noteq> [] \<longrightarrow> getitem ?d2 (fst cm) \<noteq> getitem ?d1 (fst cm))"
    if cm: "cm \<in> set recode_steps" for cm
  proof -
    from cm assms obtain s where s: "getitem df (fst cm) = Inr s"
      and valid: "\<forall>v \<in> set s. \<exists>k l. v = Num (of_int k) \<and> snd cm k = Some l"
      by blast
    let ?s1 = "map (map_value (snd cm)) s"
    from s have g1: "getitem ?d1 (fst cm) = Inr ?s1"
      by (simp add: getitem_recoded [OF cm] map_series_def)
    then have g2: "getitem ?d2 (fst cm) = Inr (map (map_value (snd cm)) ?s1)"
      by (simp add: getitem_recoded [OF cm] map_series_def)
    have labels: "\<forall>v \<in> set ?s1. \<exists>l. v = Str l"
      using valid by (auto simp: map_value_code)
    have "map (map_value (snd cm)) ?s1 = replicate (length s) NaN"
    proof (rule nth_equalityI)
      show "length (map (map_value (snd cm)) ?s1) = length (replicate (length s) NaN)"
        by simp
    next
      fix i
      assume "i < length (map (map_value (snd cm)) ?s1)"
      then have i: "i < length s" by simp
      then have "?s1 ! i \<in> set ?s1" by (metis length_map nth_mem)
      with labels obtain l where "?s1 ! i = Str l" by blast
      with i show "map (map_value (snd cm)) ?s1 ! i = replicate (length s) NaN ! i"
        by (simp add: map_value_Str)
    qed
    with g2 have g2': "getitem ?d2 (fst cm) = Inr (replicate (length s) NaN)" by simp
    have diff: "getitem ?d2 (fst cm) \<noteq> getitem ?d1 (fst cm)" if "s \<noteq> []"
    proof
      assume "getitem ?d2 (fst cm) = getitem ?d1 (fst cm)"
      with g1 g2' have e: "?s1 = replicate (length s) NaN" by simp
      from that have "?s1 \<noteq> []" by simp
      then have "hd ?s1 \<in> set ?s1" by (rule hd_in_set)
      with labels obtain l where "hd ?s1 = Str l" by blast
      moreover from e that have "hd ?s1 = NaN"
        by (metis hd_replicate length_0_conv)
      ultimately show False by simp
    qed
    from s g1 labels g2' diff show ?thesis by simp
  qed
  with r1 r2 show ?thesis by blast
qed

lemma code_numeral:
  "m (numeral n) = Some l \<Longrightarrow> \<exists>k l'. Num (numeral n) = Num (of_int k) \<and> m k = Some l'"
  by (rule exI [of _ "numeral n"]) simp

lemma code_one: "m 1 = Some l \<Longrightarrow> \<exists>k l'. Num 1 = Num (of_int k) \<and> m k = Some l'"
  by (rule exI [of _ 1]) simp

lemma frame_hr_valid:
  "\<forall>cm \<in> set recode_steps. \<exists>s. getitem frame_hr (fst cm) = Inr s \<and>
     (\<forall>v \<in> set s. \<exists>k l. v = Num (of_int k) \<and> snd cm k = Some l)"
  unfolding recode_steps_def frame_hr_def getitem_def
    education_map_def environment_satisfaction_map_def job_involvement_map_def
    job_satisfaction_map_def performance_rating_map_def relationship_satisfaction_map_def
    work_life_balance_map_def
  by (simp add: code_numeral code_one)

theorem recode_twice_all_null_witness:
  "getitem frame_hr ''Education'' = Inr [Num 3, Num 4, Num 1] \<and>
   education_map 3 = Some ''Bachelor'' \<and> education_map 4 = Some ''Master'' \<and>
   education_map 1 = Some ''Below College'' \<and>
   recode_ordinals frame_hr = Inr frame_hr_recoded \<and>
   (\<exists>df2. recode_ordinals frame_hr_recoded = Inr df2 \<and>
      getitem df2 ''Education'' = Inr [NaN, NaN, NaN] \<and>
      getitem df2 ''Education'' \<noteq> getitem frame_hr_recoded ''Education'')"
proof -
  have m: "(''Education'', education_map) \<in> set recode_steps" by (simp add: recode_steps_def)
  have g: "getitem frame_hr ''Education'' = Inr [Num 3, Num 4, Num 1]"
    by (simp add: frame_hr_def getitem_def)
  have t: "education_map 3 = Some ''Bachelor''" "education_map 4 = Some ''Master''"
    "education_map 1 = Some ''Below College''"
    by (simp_all add: education_map_def)
  from recode_twice_all_null [OF frame_hr_valid] obtain df1 df2 where
    r1: "recode_ordinals frame_hr = Inr df1" and r2: "recode_ordinals df1 = Inr df2"
    and a: "\<forall>cm \<in> set recode_steps. \<exists>s s1.
        getitem frame_hr (fst cm) = Inr s \<and>
        getitem df1 (fst cm) = Inr s1 \<and> length s1 = length s \<and>
        (\<forall>v \<in> set s1. \<exists>l. v = Str l) \<and>
        getitem df2 (fst cm) = Inr (replicate (length s) NaN) \<and>
        (s \<noteq> [] \<longrightarrow> getitem df2 (fst cm) \<noteq> getitem df1 (fst cm))"
    by blast
  from r1 have df1: "df1 = frame_hr_recoded" by (simp add: recode_frame_hr)
  from a m obtain s where
    "getitem frame_hr (fst (''Education'', education_map)) = Inr s"
    "getitem df2 (fst (''Education'', education_map)) = Inr (replicate (length s) NaN)"
    "s \<noteq> [] \<longrightarrow> getitem df2 (fst (''Education'', education_map))
        \<noteq> getitem df1 (fst (''Education'', education_map))"
    by blast
  with g have "getitem df2 ''Education'' = Inr [NaN, NaN, NaN]"
    and "getitem df2 ''Education'' \<noteq> getitem df1 ''Education''"
    by (auto simp: numeral_3_eq_3)
  with r2 df1 g t recode_frame_hr show ?thesis by blast
qed

section \<open>The attrition rate: with and without a record that left\<close>

lemma counts_getitem_Yes:
  "counts_getitem (value_counts s) ''Yes'' =
     (if Str ''Yes'' \<in> set s then Inr (count_list s (Str ''Yes'')) else Inl (KeyError ''Yes''))"
  by (simp add: counts_getitem_def value_counts_def notnull_def)

text \<open>
  With at least one record whose Attrition is Yes the rate is the number of those records
  over the number of rows, times 100.
\<close>

lemma attrition_rate_formula:
  assumes "getitem df ''Attrition'' = Inr s" and "Str ''Yes'' \<in> set s"
  shows "attrition_rate df
           = Inr (of_nat (count_list s (Str ''Yes'')) / of_nat (nrows df) * 100)"
  using assms by (simp add: attrition_rate_def counts_getitem_Yes)

text \<open>In a well-formed frame the divisor is then positive.\<close>

lemma wf_frame_length:
  assumes "wf_frame df" and "getitem df c = Inr s"
  shows "length s = nrows df"
proof -
  from assms(2) have "map_of (cols df) c = Some s"
    by (simp add: getitem_def split: option.splits)
  then have "(c, s) \<in> set (cols df)" by (rule map_of_SomeD)
  with assms(1) show ?thesis by (auto simp: wf_frame_def)
qed

lemma attrition_rate_divisor_positive:
  assumes "wf_frame df" and "getitem df ''Attrition'' = Inr s" and "Str ''Yes'' \<in> set s"
  shows "0 < nrows df"
proof -
  from assms(3) have "0 < length s" by (cases s) auto
  with wf_frame_length [OF assms(1,2)] show ?thesis by simp
qed

lemma count_list_all:
  "set s \<subseteq> {v} \<Longrightarrow> count_list s v = length s"
  by (induction s) auto

lemma attrition_rate_all_yes:
  assumes "wf_frame df" and "getitem df ''Attrition'' = Inr s"
    and "s \<noteq> []" and "set s \<subseteq> {Str ''Yes''}"
  shows "attrition_rate df = Inr 100"
proof -
  from assms(3,4) have y: "Str ''Yes'' \<in> set s" by (cases s) auto
  have n: "nrows df = length s" using wf_frame_length [OF assms(1,2)] by simp
  from assms(3) have "length s \<noteq> 0" by simp
  then show ?thesis
    by (simp add: attrition_rate_formula [OF assms(2) y] count_list_all [OF assms(4)] n)
qed

text \<open>Without such a record the lookup \<^verbatim>\<open>attrition_counts['Yes']\<close> raises KeyError.\<close>

lemma attrition_rate_no_yes:
  assumes "getitem df ''Attrition'' = Inr s" and "Str ''Yes'' \<notin> set s"
  shows "attrition_rate df = Inl (KeyError ''Yes'')"
  using assms by (simp add: attrition_rate_def counts_getitem_Yes)

text \<open>
  C1. On the two-record frame in which nobody left, the rate should be 0; the source
  raises KeyError at \<^verbatim>\<open>attrition_counts['Yes']\<close> instead, because \<^verbatim>\<open>value_counts()\<close> has
  no entry for a value that does not occur.
\<close>

theorem attrition_rate_nobody_left:
  "attrition_rate frame_nobody_left = Inl (KeyError ''Yes'')"
  by (simp add: frame_nobody_left_def attrition_rate_def getitem_def counts_getitem_Yes)

section \<open>The printed rate\<close>

text \<open>
  Every value strictly between 66.665 and 66.675 prints as 66.67, so the rounding of the
  two floating-point operations in the source, far smaller than this margin around
  200/3, does not change the printed rate.
\<close>

lemma round_half_even_near:
  assumes "of_int n - 1 / 2 < q" and "q < of_int n + 1 / 2"
  shows "round_half_even q = n"
proof -
  have lo: "n - 1 \<le> \<lfloor>q\<rfloor>" using assms(1) by (simp add: le_floor_iff)
  have hi: "\<lfloor>q\<rfloor> \<le> n" using assms(2) by (simp add: floor_le_iff)
  from lo hi consider "\<lfloor>q\<rfloor> = n - 1" | "\<lfloor>q\<rfloor> = n" by linarith
  then show ?thesis
  proof cases
    case 1
    with assms(1) have "1 / 2 < q - of_int \<lfloor>q\<rfloor>" by simp
    with 1 show ?thesis by (simp add: round_half_even_def Let_def)
  next
    case 2
    with assms(2) have "q - of_int \<lfloor>q\<rfloor> < 1 / 2" by simp
    with 2 show ?thesis by (simp add: round_half_even_def Let_def)
  qed
qed

lemma show_nat_66: "show_nat 66 = ''66''"
  by (simp add: show_nat.simps digit_def)

lemma format_2f_near_66_67:
  assumes "66665 / 1000 < r" and "r < 66675 / 1000"
  shows "format_2f r = ''66.67''"
proof -
  from assms have pos: "0 < r" by simp
  then have a: "\<bar>r\<bar> = r" by simp
  have "round_half_even (r * 100) = 6667"
    by (rule round_half_even_near) (use assms in simp_all)
  with pos a show ?thesis
    by (simp add: format_2f_def Let_def show_nat_66 digit_def)
qed


section \<open>The literal three-row input\<close>








section \<open>Runs of the script\<close>

lemma script_run_load_failure:
  "script_run (Inl e) out \<longleftrightarrow>
     out = (if e = FileNotFoundError then Exited not_found_messages else Uncaught e)"
  by (subst script_run.simps) auto

lemma script_run_loaded:
  "script_run (Inr df) out \<longleftrightarrow>
     out = (case analyse df of
              Inl e \<Rightarrow> Uncaught e
            | Inr (df', r) \<Rightarrow> Reported df' (rate_message r))"
  by (subst script_run.simps) (auto split: sum.splits)

text \<open>
  C5, as stated. A missing file is caught and the script leaves through its handler. A file
  that is there but cannot be parsed is not: its exception is none of the handler's, and the
  run does not end the way it ends for a missing file.
\<close>

theorem unparseable_not_handled_counterexample:
  "script_run (Inl FileNotFoundError) (Exited not_found_messages) \<and>
   script_run (Inl ParserError) (Uncaught ParserError) \<and>
   \<not> script_run (Inl ParserError) (Exited not_found_messages)"
  by (simp add: script_run_load_failure)

text \<open>
  C5, amended. When the load fails, the run ends at once and has neither a frame nor a
  reported rate: for a missing file through the handler, after its two messages; for any
  other failure of the load with that failure's exception, uncaught.
\<close>

theorem load_failure_ends_run:
  assumes "script_run (Inl e) out"
  shows "(e = FileNotFoundError \<longrightarrow> out = Exited not_found_messages) \<and>
     (e \<noteq> FileNotFoundError \<longrightarrow> out = Uncaught e) \<and>
     (\<forall>df line. out \<noteq> Reported df line)"
  using assms by (subst (asm) script_run.simps) auto

theorem load_failure_ends_run_witness:
  "script_run (Inl ParserError) (Uncaught ParserError) \<and>
   ParserError \<noteq> FileNotFoundError \<and>
   (\<forall>df line. Uncaught ParserError \<noteq> Reported df line) \<and>
   script_run (Inl FileNotFoundError) (Exited not_found_messages) \<and>
   (\<forall>df line. Exited not_found_messages \<noteq> Reported df line)"
proof -
  have 1: "script_run (Inl ParserError) (Uncaught ParserError)"
    by (rule script_run.load_fails) simp
  have 2: "script_run (Inl FileNotFoundError) (Exited not_found_messages)"
    by (rule script_run.not_found)
  from load_failure_ends_run [OF 1] load_failure_ends_run [OF 2] 1 2
  show ?thesis by blast
qed



text \<open>Every result of the load has a run, so the statement above is about something.\<close>

lemma script_run_total: "\<exists>out. script_run input out"
  by (cases input) (simp_all add: script_run_load_failure script_run_loaded)

lemma rate_message_frame_hr:
  "rate_message (200 / 3) = CHR 0x0A # ''Overall Attrition Rate: 66.67%''"
proof -
  have "format_2f (200 / 3) = ''66.67''"
    by (rule format_2f_near_66_67) simp_all
  then show ?thesis by (simp add: rate_message_def)
qed

section \<open>Cleaning keeps frames well formed\<close>

lemma wf_frame_without: "wf_frame df \<Longrightarrow> wf_frame (without P df)"
  by (auto simp: wf_frame_def without_def distinct_map_filter)

lemma set_update_first:
  "p \<in> set (update_first c f xs) \<Longrightarrow> \<exists>q \<in> set xs. snd p = snd q \<or> snd p = f (snd q)"
  by (induction xs) (auto split: if_splits)

lemma wf_frame_recode_pure:
  assumes "wf_frame df"
  shows "wf_frame (recode_pure cm df)"
proof -
  have "length (snd p) = nrows df" if "p \<in> set (update_first (fst cm) (map_series (snd cm)) (cols df))" for p
  proof -
    from set_update_first [OF that] obtain q where "q \<in> set (cols df)"
      and "snd p = snd q \<or> snd p = map_series (snd cm) (snd q)"
      by blast
    with assms show ?thesis by (auto simp: wf_frame_def map_series_def)
  qed
  with assms show ?thesis
    by (simp add: wf_frame_def recode_pure_def map_fst_update_first)
qed

lemma wf_frame_fold_recode_pure:
  "wf_frame df \<Longrightarrow> wf_frame (fold recode_pure steps df)"
  by (induction steps arbitrary: df) (simp_all add: wf_frame_recode_pure)

text \<open>
  The cleaned frame of a well-formed frame is well formed: its columns are still pairwise
  distinct and as long as the index, so every record has the same fields.
\<close>

lemma wf_frame_prepare:
  assumes "wf_frame df" and "prepare df = Inr df'"
  shows "wf_frame df'"
proof -
  let ?d = "without (\<lambda>k. k \<in> set columns_to_drop \<and> is_constant df k) df"
  from assms(2) have "recode_ordinals ?d = Inr df'"
    by (simp add: prepare_def prune_eq)
  then have "df' = fold recode_pure recode_steps ?d"
    by (simp add: recode_ordinals_iff)
  with assms(1) show ?thesis
    by (simp add: wf_frame_without wf_frame_fold_recode_pure)
qed

lemma wf_frame_examples:
  "wf_frame frame_two_valued" "wf_frame frame_no_candidates" "wf_frame frame_nobody_left"
  "wf_frame frame_literal" "wf_frame frame_hr" "wf_frame frame_stray"
  by (simp_all add: wf_frame_def frame_two_valued_def frame_no_candidates_def
      frame_nobody_left_def frame_literal_def frame_hr_def frame_stray_def)

end
